theory Spec2Isabelle
  imports Complex_Main
begin

section \<open>The products table\<close>

text \<open>
  The store is one SQLite table, \<^verbatim>\<open>products (id INTEGER PRIMARY KEY, product_name,
  quantity, price, description)\<close>. A row is a record with the columns in the order of
  the schema, so that \<^verbatim>\<open>existing_product[2]\<close> of the source is the field \<open>quantity\<close>.
  The column \<^verbatim>\<open>id\<close> is called \<open>product_id\<close> here, since \<open>id\<close> is the identity function
  of HOL. A price is a Python float; the model keeps the type of prices abstract (\<open>'p\<close>)
  and never computes with a price except through the float operations handed to it in
  the environment below, so every statement holds for whatever these operations do.

  The integers of the code are the unbounded integers of Python. The store holds an
  INTEGER in 64 bits, and a Python integer outside this range cannot be handed to a
  statement: the call of \<^verbatim>\<open>execute\<close> raises \<^verbatim>\<open>OverflowError\<close>. The field \<open>quantity\<close> is the
  value the column holds: a value inside the 64-bit range is the INTEGER of the store,
  and a value outside it stands for the REAL of that value, which the store keeps when
  an addition of its own overflows. The statements about \<^verbatim>\<open>add_stock\<close> and about the
  batch operations are made for rows that hold an INTEGER (\<open>int64\<close>, \<open>stored_int64\<close>).

  A table is the list of its rows. The primary key makes the identifiers of the rows
  pairwise distinct (\<open>pk\<close>); the statements that need this say so.
\<close>

record 'p product =
  product_id :: int
  product_name :: string
  quantity :: int
  price :: 'p
  description :: "string option"

type_synonym 'p table = "'p product list"

definition pk :: "'p table \<Rightarrow> bool" where
  "pk t = distinct (map product_id t)"

text \<open>
  The exceptions the code can raise. The three \<^verbatim>\<open>ValueError\<close>s of the source carry
  their message; the message of a \<^verbatim>\<open>ValueError\<close> raised by a built-in is shortened.
\<close>

datatype error =
  ValueError string
  | TypeError
  | IndexError
  | IntegrityError
  | OSError
  | OverflowError

subsection \<open>The 64-bit integers of the store\<close>

definition int64 :: "int \<Rightarrow> bool" where
  "int64 n \<longleftrightarrow> - (2 ^ 63) \<le> n \<and> n < 2 ^ 63"

text \<open>Handing a Python integer to a statement as a parameter.\<close>

definition bind_int :: "int \<Rightarrow> error + int" where
  "bind_int n = (if int64 n then Inr n else Inl OverflowError)"

text \<open>
  The double nearest to an integer, as an integer (every double from \<open>2 ^ 53\<close> on is one):
  the 53 leading bits are kept and the rest is rounded to nearest, ties to the even
  neighbour. \<open>excess_bits a\<close> is the number of bits of \<open>a\<close> beyond 53. The values met here are
  far below the largest double.
\<close>

function excess_bits :: "nat \<Rightarrow> nat" where
  "excess_bits a = (if a < 2 ^ 53 then 0 else Suc (excess_bits (a div 2)))"
  by pat_completeness auto
termination
  by (relation "measure (\<lambda>a. a)") auto

definition round_nat :: "nat \<Rightarrow> nat" where
  "round_nat a =
     (let e = excess_bits a; m = a div 2 ^ e; r = a mod 2 ^ e
      in if 2 ^ e < 2 * r \<or> (2 * r = 2 ^ e \<and> odd m) then (m + 1) * 2 ^ e else m * 2 ^ e)"

definition double_of_int :: "int \<Rightarrow> int" where
  "double_of_int n =
     (if n < 0 then - int (round_nat (nat (- n))) else int (round_nat (nat n)))"

text \<open>
  The expression \<^verbatim>\<open>quantity + ?\<close> of an \<^verbatim>\<open>UPDATE\<close>, on the stored value \<open>c\<close> and the 64-bit
  parameter \<open>q\<close>: the integer sum when \<open>c\<close> is an INTEGER and the sum fits 64 bits;
  otherwise SQLite adds the two as doubles, and the REAL it gets stays in the column.
\<close>

definition sql_add :: "int \<Rightarrow> int \<Rightarrow> int" where
  "sql_add c q =
     (if int64 c \<and> int64 (c + q) then c + q
      else double_of_int (double_of_int c + double_of_int q))"

subsection \<open>The SQL statements of the source\<close>

text \<open>\<^verbatim>\<open>SELECT * FROM products WHERE id = ?\<close> followed by \<^verbatim>\<open>fetchone()\<close>.\<close>

definition select_by_id :: "'p table \<Rightarrow> int \<Rightarrow> 'p product option" where
  "select_by_id t i = find (\<lambda>r. product_id r = i) t"

text \<open>\<^verbatim>\<open>UPDATE products SET quantity = <f quantity> WHERE id = ?\<close>: every row with the
  identifier is rewritten, a table without such a row is left as it is.\<close>

definition update_quantity_where :: "(int \<Rightarrow> int) \<Rightarrow> int \<Rightarrow> 'p table \<Rightarrow> 'p table" where
  "update_quantity_where f i t =
     map (\<lambda>r. if product_id r = i then r\<lparr>quantity := f (quantity r)\<rparr> else r) t"

text \<open>The identifier SQLite gives to a row inserted without one: 1 in an empty table,
  otherwise one more than the largest identifier in use.\<close>

definition next_rowid :: "'p table \<Rightarrow> int" where
  "next_rowid t = (if t = [] then 1 else Max (set (map product_id t)) + 1)"

text \<open>\<^verbatim>\<open>INSERT INTO products (...) VALUES (...)\<close>, with the identifier (\<open>Some i\<close>) or
  without it (\<open>None\<close>). An identifier already in use violates the primary key.\<close>

definition insert_row ::
  "'p table \<Rightarrow> int option \<Rightarrow> string \<Rightarrow> int \<Rightarrow> 'p \<Rightarrow> string option \<Rightarrow> error + 'p table" where
  "insert_row t i name q p d =
     (case i of
        None \<Rightarrow>
          Inr (t @ [\<lparr>product_id = next_rowid t, product_name = name, quantity = q,
                     price = p, description = d\<rparr>])
      | Some j \<Rightarrow>
          if j \<in> set (map product_id t) then Inl IntegrityError
          else Inr (t @ [\<lparr>product_id = j, product_name = name, quantity = q,
                          price = p, description = d\<rparr>]))"

section \<open>Catalog operations\<close>

text \<open>
  Each operation opens a connection, runs its statements, commits and closes. It is
  modelled as a function from the table to an outcome (\<open>None\<close> when the call returns,
  \<open>Some e\<close> when it raises \<open>e\<close>) and the table after the call.
\<close>

text \<open>\<^verbatim>\<open>if product_id:\<close> is Python's truth test: \<^verbatim>\<open>None\<close> and \<^verbatim>\<open>0\<close> are both false.\<close>

definition truthy_id :: "int option \<Rightarrow> bool" where
  "truthy_id i = (case i of None \<Rightarrow> False | Some j \<Rightarrow> j \<noteq> 0)"

definition add_product ::
  "'p table \<Rightarrow> string \<Rightarrow> int \<Rightarrow> 'p \<Rightarrow> string option \<Rightarrow> int option \<Rightarrow> error option \<times> 'p table" where
  "add_product t name q p d i =
     (case (if truthy_id i then insert_row t i name q p d
            else insert_row t None name q p d) of
        Inl e \<Rightarrow> (Some e, t)
      | Inr t' \<Rightarrow> (None, t'))"

definition add_stock :: "'p table \<Rightarrow> int \<Rightarrow> int \<Rightarrow> error option \<times> 'p table" where
  "add_stock t i q =
     (if q < 0 then (Some (ValueError ''Quantity to add must be non-negative.''), t)
      else
        (case bind_int q of
           Inl e \<Rightarrow> (Some e, t)
         | Inr q' \<Rightarrow>
             (case bind_int i of
                Inl e \<Rightarrow> (Some e, t)
              | Inr i' \<Rightarrow> (None, update_quantity_where (\<lambda>c. sql_add c q') i' t))))"

definition remove_stock :: "'p table \<Rightarrow> int \<Rightarrow> int \<Rightarrow> error option \<times> 'p table" where
  "remove_stock t i q =
     (if q < 0 then (Some (ValueError ''Quantity to remove must be non-negative.''), t)
      else
        (case map_option quantity (select_by_id t i) of
           None \<Rightarrow> (Some (ValueError ''Product ID not found.''), t)
         | Some current_quantity \<Rightarrow>
             if q > current_quantity
             then (Some (ValueError ''Cannot remove more than available quantity.''), t)
             else (None, update_quantity_where (\<lambda>c. c - q) i t)))"

definition get_product :: "'p table \<Rightarrow> int \<Rightarrow> 'p product option" where
  "get_product t i = select_by_id t i"

text \<open>A call of one of the two stock operations, and a sequence of such calls run one
  after the other on the table; a call that raises leaves the table to the next call.\<close>

datatype stock_call = Add_stock int int | Remove_stock int int

fun run_call :: "'p table \<Rightarrow> stock_call \<Rightarrow> error option \<times> 'p table" where
  "run_call t (Add_stock i q) = add_stock t i q"
| "run_call t (Remove_stock i q) = remove_stock t i q"

fun run_calls :: "'p table \<Rightarrow> stock_call list \<Rightarrow> 'p table" where
  "run_calls t [] = t"
| "run_calls t (c # cs) = run_calls (snd (run_call t c)) cs"

text \<open>The precondition of a call in a table: the quantity argument is not negative and,
  for a removal, the product exists and holds at least that quantity.\<close>

fun call_pre :: "'p table \<Rightarrow> stock_call \<Rightarrow> bool" where
  "call_pre t (Add_stock i q) = (0 \<le> q)"
| "call_pre t (Remove_stock i q) =
     (0 \<le> q \<and> (case select_by_id t i of None \<Rightarrow> False | Some r \<Rightarrow> q \<le> quantity r))"

fun calls_pre :: "'p table \<Rightarrow> stock_call list \<Rightarrow> bool" where
  "calls_pre t [] = True"
| "calls_pre t (c # cs) = (call_pre t c \<and> calls_pre (snd (run_call t c)) cs)"

definition quantities_nonneg :: "'p table \<Rightarrow> bool" where
  "quantities_nonneg t = list_all (\<lambda>r. 0 \<le> quantity r) t"

section \<open>Batch ingestion\<close>

text \<open>
  What the batch operations take from outside the repository is gathered in an
  environment: Python's \<^verbatim>\<open>int()\<close> and \<^verbatim>\<open>float()\<close> on a string (\<open>None\<close> when they raise
  \<^verbatim>\<open>ValueError\<close>), the product of an int and a float and the sum of two floats, whether
  a float is a NaN (which the store takes as NULL), the rows that \<^verbatim>\<open>csv.DictReader\<close> reads
  from a file (\<open>None\<close> when the file cannot be opened), and \<^verbatim>\<open>shutil.move\<close> (\<open>None\<close> when it
  raises). The file system \<open>'fs\<close> is abstract.
\<close>

record csv_row =
  CODECONTENT :: "string option"
  QUANTITY :: "string option"

record ('p, 'fs) env =
  py_int :: "string \<Rightarrow> int option"
  py_float :: "string \<Rightarrow> 'p option"
  float_mul :: "int \<Rightarrow> 'p \<Rightarrow> 'p"
  float_add :: "'p \<Rightarrow> 'p \<Rightarrow> 'p"
  float_isnan :: "'p \<Rightarrow> bool"
  csv_rows :: "'fs \<Rightarrow> string \<Rightarrow> csv_row list option"
  shutil_move :: "'fs \<Rightarrow> string \<Rightarrow> string \<Rightarrow> 'fs option"

text \<open>An entry of \<^verbatim>\<open>invoice_data\<close>: the dictionary with the keys \<^verbatim>\<open>'Product ID'\<close>,
  \<^verbatim>\<open>'Product Name'\<close>, \<^verbatim>\<open>'Quantity'\<close>, \<^verbatim>\<open>'Unit Price'\<close> and \<^verbatim>\<open>'Total Price'\<close>.\<close>

record 'p invoice_item =
  Product_ID :: int
  Product_Name :: string
  Quantity :: int
  Unit_Price :: 'p
  Total_Price :: 'p

text \<open>
  The world of a batch operation: the committed contents of the database file, the
  file system, and the effects that left the process, in the order they happened.
  Statements run on a connection change the connection's own view of the table, which
  reaches the database file at \<^verbatim>\<open>conn.commit()\<close>; a connection dropped by an exception
  before that leaves the file as it was. The rendering of the invoice spreadsheet is
  outside the model: writing it is the effect \<open>Invoice_written\<close> with the source file
  name and the lines.
\<close>

datatype 'p effect =
  File_moved string string
  | Committed
  | Invoice_written string "'p invoice_item list"

record ('p, 'fs) world =
  database :: "'p table"
  files :: 'fs
  effects :: "'p effect list"

subsection \<open>Built-ins\<close>

text \<open>\<^verbatim>\<open>s.split(', ')\<close>: the pieces of \<open>s\<close> between the occurrences of comma-space, found
  from the left.\<close>

fun split_comma_space :: "string \<Rightarrow> string list" where
  "split_comma_space [] = [[]]"
| "split_comma_space [c] = [[c]]"
| "split_comma_space (c # d # cs) =
     (if c = CHR '','' \<and> d = CHR '' '' then [] # split_comma_space cs
      else (case split_comma_space (d # cs) of
              [] \<Rightarrow> [[c]]
            | w # ws \<Rightarrow> (c # w) # ws))"

text \<open>\<^verbatim>\<open>xs[n]\<close> for a non-negative constant \<open>n\<close>.\<close>

definition item :: "'a list \<Rightarrow> nat \<Rightarrow> error + 'a" where
  "item xs n = (if n < length xs then Inr (xs ! n) else Inl IndexError)"

text \<open>\<^verbatim>\<open>int(x)\<close> where \<open>x\<close> is a string or \<^verbatim>\<open>None\<close>, and \<^verbatim>\<open>float(x)\<close> on a string.\<close>

definition int_of :: "('p, 'fs) env \<Rightarrow> string option \<Rightarrow> error + int" where
  "int_of env x =
     (case x of
        None \<Rightarrow> Inl TypeError
      | Some s \<Rightarrow>
          (case py_int env s of
             None \<Rightarrow> Inl (ValueError ''invalid literal for int()'')
           | Some n \<Rightarrow> Inr n))"

definition float_of :: "('p, 'fs) env \<Rightarrow> string \<Rightarrow> error + 'p" where
  "float_of env s =
     (case py_float env s of
        None \<Rightarrow> Inl (ValueError ''could not convert string to float'')
      | Some x \<Rightarrow> Inr x)"

text \<open>Sequencing: an exception raised by the first computation ends the whole.\<close>

definition and_then :: "error + 'a \<Rightarrow> ('a \<Rightarrow> error + 'b) \<Rightarrow> error + 'b" where
  "and_then m f = (case m of Inl e \<Rightarrow> Inl e | Inr x \<Rightarrow> f x)"

subsection \<open>Effects\<close>

definition move_file ::
  "('p, 'fs) env \<Rightarrow> ('p, 'fs) world \<Rightarrow> string \<Rightarrow> string \<Rightarrow> error + ('p, 'fs) world" where
  "move_file env w src dst =
     (case shutil_move env (files w) src dst of
        None \<Rightarrow> Inl OSError
      | Some fs \<Rightarrow> Inr (w\<lparr>files := fs, effects := effects w @ [File_moved src dst]\<rparr>))"

definition commit :: "('p, 'fs) world \<Rightarrow> 'p table \<Rightarrow> ('p, 'fs) world" where
  "commit w t = w\<lparr>database := t, effects := effects w @ [Committed]\<rparr>"

definition write_invoice ::
  "('p, 'fs) world \<Rightarrow> 'p invoice_item list \<Rightarrow> string \<Rightarrow> ('p, 'fs) world" where
  "write_invoice w invoice_data filename =
     w\<lparr>effects := effects w @ [Invoice_written filename invoice_data]\<rparr>"

subsection \<open>Outgoing goods\<close>

text \<open>The first part of the loop body: everything read from the row before the
  database is consulted. \<open>Inr None\<close> is a row whose \<^verbatim>\<open>CODECONTENT\<close> is missing or
  empty, which the body skips (after \<^verbatim>\<open>int()\<close> of its quantity).\<close>

definition outgoing_fields ::
  "('p, 'fs) env \<Rightarrow> string \<Rightarrow> error + (int \<times> string \<times> 'p)" where
  "outgoing_fields env product_data =
     (let product_info = split_comma_space product_data in
      and_then (item product_info 0) (\<lambda>s0.
      and_then (int_of env (Some s0)) (\<lambda>pid.
      and_then (item product_info 1) (\<lambda>pname.
      and_then (item product_info 2) (\<lambda>s2.
      and_then (float_of env s2) (\<lambda>product_price.
      Inr (pid, pname, product_price)))))))"

definition parse_outgoing ::
  "('p, 'fs) env \<Rightarrow> csv_row \<Rightarrow> error + (int \<times> string \<times> int \<times> 'p) option" where
  "parse_outgoing env row =
     (case int_of env (QUANTITY row) of
        Inl e \<Rightarrow> Inl e
      | Inr product_quantity \<Rightarrow>
          (case CODECONTENT row of
             None \<Rightarrow> Inr None
           | Some product_data \<Rightarrow>
               if product_data = [] then Inr None
               else
                 (case outgoing_fields env product_data of
                    Inl e \<Rightarrow> Inl e
                  | Inr (pid, pname, product_price) \<Rightarrow>
                      Inr (Some (pid, pname, product_quantity, product_price)))))"

text \<open>The select and the update of the body. The identifier is handed to the
  \<^verbatim>\<open>SELECT\<close> and the new quantity to the \<^verbatim>\<open>UPDATE\<close>, and either can be too large for
  the store.\<close>

definition outgoing_update :: "'p table \<Rightarrow> int \<Rightarrow> int \<Rightarrow> error + 'p table" where
  "outgoing_update t i product_quantity =
     and_then (bind_int i) (\<lambda>i'.
       (case select_by_id t i' of
          None \<Rightarrow> Inr t
        | Some existing_product \<Rightarrow>
            and_then (bind_int (max (quantity existing_product - product_quantity) 0))
              (\<lambda>new_quantity. Inr (update_quantity_where (\<lambda>_. new_quantity) i' t))))"

text \<open>The invoice part of the body: the first entry with the identifier is changed in
  place, and a new entry is appended when there is none.\<close>

fun update_first :: "('a \<Rightarrow> bool) \<Rightarrow> ('a \<Rightarrow> 'a) \<Rightarrow> 'a list \<Rightarrow> 'a list" where
  "update_first P f [] = []"
| "update_first P f (x # xs) = (if P x then f x # xs else x # update_first P f xs)"

definition add_to_invoice ::
  "('p, 'fs) env \<Rightarrow> 'p invoice_item list \<Rightarrow> int \<Rightarrow> string \<Rightarrow> int \<Rightarrow> 'p \<Rightarrow> 'p invoice_item list" where
  "add_to_invoice env invoice_data i pname product_quantity product_price =
     (case find (\<lambda>it. Product_ID it = i) invoice_data of
        Some existing_invoice_item \<Rightarrow>
          update_first (\<lambda>it. Product_ID it = i)
            (\<lambda>it. it\<lparr>Quantity := Quantity it + product_quantity,
                      Total_Price := float_add env (Total_Price it)
                                       (float_mul env product_quantity product_price)\<rparr>)
            invoice_data
      | None \<Rightarrow>
          invoice_data @
            [\<lparr>Product_ID = i, Product_Name = pname, Quantity = product_quantity,
              Unit_Price = product_price,
              Total_Price = float_mul env product_quantity product_price\<rparr>])"

definition outgoing_row ::
  "('p, 'fs) env \<Rightarrow> 'p table \<times> 'p invoice_item list \<Rightarrow> csv_row \<Rightarrow>
     error + ('p table \<times> 'p invoice_item list)" where
  "outgoing_row env st row =
     (case parse_outgoing env row of
        Inl e \<Rightarrow> Inl e
      | Inr None \<Rightarrow> Inr st
      | Inr (Some (i, pname, product_quantity, product_price)) \<Rightarrow>
          and_then (outgoing_update (fst st) i product_quantity) (\<lambda>t.
          Inr (t, add_to_invoice env (snd st) i pname product_quantity product_price)))"

fun outgoing_rows ::
  "('p, 'fs) env \<Rightarrow> 'p table \<times> 'p invoice_item list \<Rightarrow> csv_row list \<Rightarrow>
     error + ('p table \<times> 'p invoice_item list)" where
  "outgoing_rows env st [] = Inr st"
| "outgoing_rows env st (row # rows) =
     (case outgoing_row env st row of
        Inl e \<Rightarrow> Inl e
      | Inr st' \<Rightarrow> outgoing_rows env st' rows)"

definition process_outgoing_goods ::
  "('p, 'fs) env \<Rightarrow> ('p, 'fs) world \<Rightarrow> string \<Rightarrow> error option \<times> ('p, 'fs) world" where
  "process_outgoing_goods env w filename =
     (case csv_rows env (files w) filename of
        None \<Rightarrow> (Some OSError, w)
      | Some rows \<Rightarrow>
          (case outgoing_rows env (database w, []) rows of
             Inl e \<Rightarrow> (Some e, w)
           | Inr (t, invoice_data) \<Rightarrow>
               (case move_file env w filename ''./OutgoingGoods/Processed'' of
                  Inl e \<Rightarrow> (Some e, w)
                | Inr w1 \<Rightarrow> (None, write_invoice (commit w1 t) invoice_data filename))))"

subsection \<open>Incoming goods\<close>

text \<open>The loop body. A row with a non-empty \<^verbatim>\<open>CODECONTENT\<close> is looked up by the integer
  of its first field. For a product that exists only the quantity is read from the row;
  for a new one the tuple of the \<^verbatim>\<open>INSERT\<close> is built from the fields in the order of the
  source and handed to the store, which refuses a quantity beyond 64 bits and a NaN
  price (NULL in a NOT NULL column).\<close>

definition incoming_row ::
  "('p, 'fs) env \<Rightarrow> 'p table \<Rightarrow> csv_row \<Rightarrow> error + 'p table" where
  "incoming_row env t row =
     (case CODECONTENT row of
        None \<Rightarrow> Inr t
      | Some product_data \<Rightarrow>
          if product_data = [] then Inr t
          else
            (let product_info = split_comma_space product_data in
             and_then (item product_info 0) (\<lambda>s0.
             and_then (int_of env (Some s0)) (\<lambda>i.
             and_then (bind_int i) (\<lambda>i'.
               (case select_by_id t i' of
                  Some existing_product \<Rightarrow>
                    and_then (int_of env (QUANTITY row)) (\<lambda>q.
                    and_then (bind_int (quantity existing_product + q)) (\<lambda>new_quantity.
                    Inr (update_quantity_where (\<lambda>_. new_quantity) i' t)))
                | None \<Rightarrow>
                    and_then (item product_info 1) (\<lambda>pname.
                    and_then (int_of env (QUANTITY row)) (\<lambda>q.
                    and_then (item product_info 2) (\<lambda>s2.
                    and_then (float_of env s2) (\<lambda>p.
                    and_then (item product_info 3) (\<lambda>d.
                    and_then (bind_int q) (\<lambda>q'.
                    if float_isnan env p then Inl IntegrityError
                    else insert_row t (Some i') pname q' p (Some d)))))))))))))"

fun incoming_rows :: "('p, 'fs) env \<Rightarrow> 'p table \<Rightarrow> csv_row list \<Rightarrow> error + 'p table" where
  "incoming_rows env t [] = Inr t"
| "incoming_rows env t (row # rows) =
     (case incoming_row env t row of
        Inl e \<Rightarrow> Inl e
      | Inr t' \<Rightarrow> incoming_rows env t' rows)"

definition process_incoming_goods ::
  "('p, 'fs) env \<Rightarrow> ('p, 'fs) world \<Rightarrow> string \<Rightarrow> error option \<times> ('p, 'fs) world" where
  "process_incoming_goods env w filename =
     (case csv_rows env (files w) filename of
        None \<Rightarrow> (Some OSError, w)
      | Some rows \<Rightarrow>
          (case incoming_rows env (database w) rows of
             Inl e \<Rightarrow> (Some e, w)
           | Inr t \<Rightarrow>
               (case move_file env w filename ''./IncomingGoods/Processed'' of
                  Inl e \<Rightarrow> (Some e, w)
                | Inr w1 \<Rightarrow> (None, commit w1 t))))"

section \<open>Notions of the statements\<close>

text \<open>The rows of a batch that reach the invoice, as the loop body reads them:
  identifier, name, quantity and unit price of every row with a non-empty
  \<^verbatim>\<open>CODECONTENT\<close>.\<close>

definition invoice_rows ::
  "('p, 'fs) env \<Rightarrow> csv_row list \<Rightarrow> (int \<times> string \<times> int \<times> 'p) list" where
  "invoice_rows env rows =
     List.map_filter (\<lambda>row. case parse_outgoing env row of Inl e \<Rightarrow> None | Inr x \<Rightarrow> x) rows"

text \<open>The same for an incoming batch: identifier, quantity and the fields of
  \<^verbatim>\<open>CODECONTENT\<close> of every row with a non-empty \<^verbatim>\<open>CODECONTENT\<close> whose identifier and
  quantity are integers.\<close>

definition incoming_entry ::
  "('p, 'fs) env \<Rightarrow> csv_row \<Rightarrow> (int \<times> int \<times> string list) option" where
  "incoming_entry env row =
     (case CODECONTENT row of
        None \<Rightarrow> None
      | Some c \<Rightarrow>
          if c = [] then None
          else
            (case and_then (item (split_comma_space c) 0) (\<lambda>s0. int_of env (Some s0)) of
               Inl e \<Rightarrow> None
             | Inr i \<Rightarrow>
                 (case int_of env (QUANTITY row) of
                    Inl e \<Rightarrow> None
                  | Inr q \<Rightarrow> Some (i, q, split_comma_space c))))"

definition incoming_entries ::
  "('p, 'fs) env \<Rightarrow> csv_row list \<Rightarrow> (int \<times> int \<times> string list) list" where
  "incoming_entries env rows = List.map_filter (incoming_entry env) rows"

definition entries_of ::
  "int \<Rightarrow> (int \<times> int \<times> string list) list \<Rightarrow> (int \<times> string list) list" where
  "entries_of i xs = map (\<lambda>(j, q, info). (q, info)) (filter (\<lambda>(j, q, info). j = i) xs)"

text \<open>A table all of whose quantities are INTEGERs of the store.\<close>

definition stored_int64 :: "'p table \<Rightarrow> bool" where
  "stored_int64 t = list_all (\<lambda>r. int64 (quantity r)) t"

definition rows_of :: "int \<Rightarrow> (int \<times> string \<times> int \<times> 'p) list \<Rightarrow> (int \<times> 'p) list" where
  "rows_of i xs = map (\<lambda>(j, n, q, p). (q, p)) (filter (\<lambda>(j, n, q, p). j = i) xs)"

text \<open>The sum of a non-empty sequence of floats as the loop forms it: from the left,
  starting with the first.\<close>

fun float_sum :: "('p, 'fs) env \<Rightarrow> 'p list \<Rightarrow> 'p option" where
  "float_sum env [] = None"
| "float_sum env (x # xs) = Some (foldl (float_add env) x xs)"

text \<open>A sequence of effects in which no file is moved before the first commit.\<close>

fun moved_after_commit :: "'p effect list \<Rightarrow> bool" where
  "moved_after_commit [] = True"
| "moved_after_commit (File_moved src dst # es) = False"
| "moved_after_commit (Committed # es) = True"
| "moved_after_commit (Invoice_written f lines # es) = moved_after_commit es"

section \<open>The scenarios of the specification\<close>

text \<open>
  A concrete environment on which the model is evaluated: prices are real numbers with
  their product and sum (which agree with the float operations on the values used
  here, all of them binary fractions), \<^verbatim>\<open>int()\<close> and \<^verbatim>\<open>float()\<close> are given on the strings
  that occur, and the file system maps a path to the rows of the file there. A move
  into a directory fails when the source is missing or the directory already has a
  file of that name.
\<close>

definition demo_env :: "(real, string \<Rightarrow> csv_row list option) env" where
  "demo_env =
     \<lparr>py_int = map_of [(''7'', 7), (''30'', 30), (''90'', 90), (''100'', 100)],
      py_float = map_of [(''0.50'', 1 / 2)],
      float_mul = (\<lambda>n x. real_of_int n * x),
      float_add = (\<lambda>x y. x + y),
      float_isnan = (\<lambda>x. False),
      csv_rows = (\<lambda>fs name. fs name),
      shutil_move =
        (\<lambda>fs src dst.
           case fs src of
             None \<Rightarrow> None
           | Some rows \<Rightarrow>
               if fs (dst @ ''/'' @ src) \<noteq> None then None
               else Some (fs(src := None, dst @ ''/'' @ src \<mapsto> rows)))\<rparr>"

definition bolt :: "real product" where
  "bolt = \<lparr>product_id = 7, product_name = ''Bolt'', quantity = 100, price = 1 / 2,
            description = Some ''steel bolt''\<rparr>"

definition nut :: "real product" where
  "nut = \<lparr>product_id = 8, product_name = ''Nut'', quantity = 40, price = 1 / 4,
           description = None\<rparr>"

definition outgoing_batch :: "csv_row list" where
  "outgoing_batch =
     [\<lparr>CODECONTENT = Some ''7, Bolt, 0.50'', QUANTITY = Some ''30''\<rparr>,
      \<lparr>CODECONTENT = Some ''7, Bolt, 0.50'', QUANTITY = Some ''90''\<rparr>]"

definition incoming_batch :: "csv_row list" where
  "incoming_batch =
     [\<lparr>CODECONTENT = Some ''7, Bolt, 0.50, steel bolt'', QUANTITY = Some ''100''\<rparr>]"

definition outgoing_world :: "(real, string \<Rightarrow> csv_row list option) world" where
  "outgoing_world =
     \<lparr>database = [bolt], files = [''out.csv'' \<mapsto> outgoing_batch], effects = []\<rparr>"

definition blocked_world :: "(real, string \<Rightarrow> csv_row list option) world" where
  "blocked_world =
     \<lparr>database = [bolt],
      files = [''out.csv'' \<mapsto> outgoing_batch,
               ''./OutgoingGoods/Processed/out.csv'' \<mapsto> []],
      effects = []\<rparr>"

definition unknown_world :: "(real, string \<Rightarrow> csv_row list option) world" where
  "unknown_world =
     \<lparr>database = [nut], files = [''out.csv'' \<mapsto> outgoing_batch], effects = []\<rparr>"

definition incoming_world :: "(real, string \<Rightarrow> csv_row list option) world" where
  "incoming_world =
     \<lparr>database = [], files = [''in.csv'' \<mapsto> incoming_batch], effects = []\<rparr>"

definition restock_world :: "(real, string \<Rightarrow> csv_row list option) world" where
  "restock_world =
     \<lparr>database = [bolt], files = [''in.csv'' \<mapsto> incoming_batch], effects = []\<rparr>"

section \<open>Properties of the SQL statements\<close>

lemma select_by_id_Some:
  "select_by_id t i = Some r \<Longrightarrow> r \<in> set t \<and> product_id r = i"
  unfolding select_by_id_def by (induction t) (auto split: if_splits)

lemma select_by_id_None:
  "select_by_id t i = None \<longleftrightarrow> i \<notin> set (map product_id t)"
  unfolding select_by_id_def by (induction t) auto

lemma select_by_id_unique:
  assumes "pk t" and "select_by_id t i = Some r" and "r' \<in> set t" and "product_id r' = i"
  shows "r' = r"
proof -
  have "inj_on product_id (set t)"
    using assms(1) unfolding pk_def by (simp add: distinct_map)
  moreover have "r \<in> set t" "product_id r = i"
    using select_by_id_Some [OF assms(2)] by simp_all
  ultimately show ?thesis
    using assms(3,4) by (auto dest: inj_onD)
qed

lemma ids_update_quantity_where [simp]:
  "map product_id (update_quantity_where f i t) = map product_id t"
  unfolding update_quantity_where_def by (induction t) auto

lemma pk_update_quantity_where [simp]:
  "pk (update_quantity_where f i t) = pk t"
  unfolding pk_def by simp

lemma select_update_same:
  "select_by_id (update_quantity_where f i t) i =
     map_option (\<lambda>r. r\<lparr>quantity := f (quantity r)\<rparr>) (select_by_id t i)"
  unfolding select_by_id_def update_quantity_where_def by (induction t) auto

lemma select_update_other:
  "j \<noteq> i \<Longrightarrow> select_by_id (update_quantity_where f i t) j = select_by_id t j"
  unfolding select_by_id_def update_quantity_where_def by (induction t) auto

lemma update_absent:
  "select_by_id t i = None \<Longrightarrow> update_quantity_where f i t = t"
  unfolding select_by_id_def update_quantity_where_def
  by (induction t) (auto split: if_splits)

lemma next_rowid_fresh: "next_rowid t \<notin> set (map product_id t)"
proof (cases "t = []")
  case True
  then show ?thesis by simp
next
  case False
  have "x \<le> Max (set (map product_id t))" if "x \<in> set (map product_id t)" for x
    using that by (intro Max_ge) auto
  then show ?thesis
    using False unfolding next_rowid_def by fastforce
qed

lemma select_append_new:
  "i \<notin> set (map product_id t) \<Longrightarrow> product_id r = i \<Longrightarrow> select_by_id (t @ [r]) i = Some r"
  unfolding select_by_id_def by (induction t) auto

lemma select_append_old:
  "product_id r \<noteq> j \<Longrightarrow> select_by_id (t @ [r]) j = select_by_id t j"
  unfolding select_by_id_def by (induction t) auto

section \<open>Stock adjustment\<close>

lemma double_of_int_nonneg: "0 \<le> n \<Longrightarrow> 0 \<le> double_of_int n"
  by (simp add: double_of_int_def)

lemma sql_add_nonneg: "0 \<le> c \<Longrightarrow> 0 \<le> q \<Longrightarrow> 0 \<le> sql_add c q"
  by (simp add: sql_add_def double_of_int_nonneg)

lemma sql_add_exact: "int64 c \<Longrightarrow> int64 (c + q) \<Longrightarrow> sql_add c q = c + q"
  by (simp add: sql_add_def)

text \<open>
  Claim C7 says that \<^verbatim>\<open>add_stock(id, qty)\<close> with a non-negative \<open>qty\<close> increments the stored
  quantity by \<open>qty\<close>. The store holds 64-bit integers. On the stock \<open>2 ^ 63 - 1\<close> a call
  with \<open>qty = 2\<close> returns, and the column then holds the REAL \<open>2 ^ 63\<close>, the double nearest
  to the sum, not the stock plus 2. A call with \<open>qty = 2 ^ 63\<close> does not return: handing
  the quantity to the statement raises \<^verbatim>\<open>OverflowError\<close>.
\<close>

theorem add_stock_overflow_counterexample:
  "add_stock [bolt\<lparr>quantity := 9223372036854775807\<rparr>] 7 2 =
     (None, [bolt\<lparr>quantity := 9223372036854775808\<rparr>]) \<and>
   get_product (snd (add_stock [bolt\<lparr>quantity := 9223372036854775807\<rparr>] 7 2)) 7 \<noteq>
     Some (bolt\<lparr>quantity := 9223372036854775807 + 2\<rparr>) \<and>
   add_stock [bolt] 7 9223372036854775808 = (Some OverflowError, [bolt])"
  by (simp add: add_stock_def bind_int_def int64_def update_quantity_where_def bolt_def
      sql_add_def double_of_int_def round_nat_def Let_def get_product_def select_by_id_def)

text \<open>
  Claim C7 as amended. \<^verbatim>\<open>add_stock(id, qty)\<close> with a negative \<open>qty\<close> raises the \<^verbatim>\<open>ValueError\<close>
  ``Quantity to add must be non-negative.'' (the InvalidArgument of the specification)
  and leaves the table as it was. With a non-negative \<open>qty\<close> it raises \<^verbatim>\<open>OverflowError\<close>,
  the table again as it was, when \<open>qty\<close> or \<open>id\<close> is beyond 64 bits. Otherwise it returns:
  a row of \<open>id\<close> that holds a 64-bit integer to which \<open>qty\<close> can be added within 64 bits has
  its quantity increased by \<open>qty\<close> and is otherwise the same, every other identifier
  reads as before, and when no row has the identifier the table is unchanged.
\<close>

theorem add_stock_spec:
  "(q < 0 \<longrightarrow>
      add_stock t i q = (Some (ValueError ''Quantity to add must be non-negative.''), t)) \<and>
   (0 \<le> q \<and> \<not> (int64 q \<and> int64 i) \<longrightarrow> add_stock t i q = (Some OverflowError, t)) \<and>
   (0 \<le> q \<and> int64 q \<and> int64 i \<longrightarrow>
      (\<exists>t'. add_stock t i q = (None, t') \<and>
         (\<forall>r. get_product t i = Some r \<and> int64 (quantity r) \<and> int64 (quantity r + q) \<longrightarrow>
            get_product t' i = Some (r\<lparr>quantity := quantity r + q\<rparr>)) \<and>
         (\<forall>j. j \<noteq> i \<longrightarrow> get_product t' j = get_product t j) \<and>
         (get_product t i = None \<longrightarrow> t' = t)))"
  unfolding add_stock_def get_product_def bind_int_def
  by (auto simp: select_update_same select_update_other update_absent sql_add_exact)

theorem add_stock_spec_witness:
  "add_stock [bolt] 7 (- 1) =
     (Some (ValueError ''Quantity to add must be non-negative.''), [bolt]) \<and>
   add_stock [bolt] 7 9223372036854775808 = (Some OverflowError, [bolt]) \<and>
   (\<exists>t'. add_stock [bolt] 7 5 = (None, t') \<and>
      get_product t' 7 = Some (bolt\<lparr>quantity := 105\<rparr>)) \<and>
   add_stock [bolt] 8 5 = (None, [bolt])"
proof -
  have neg: "(- 1 :: int) < 0" and pos: "(0 :: int) \<le> 5" by simp_all
  have fits: "int64 5" "int64 7" "int64 8" "int64 (quantity bolt)" "int64 (quantity bolt + 5)"
    and big: "(0 :: int) \<le> 9223372036854775808" "\<not> int64 9223372036854775808"
    by (simp_all add: int64_def bolt_def)
  have g7: "get_product [bolt] 7 = Some bolt" and g8: "get_product [bolt] 8 = None"
    by (simp_all add: get_product_def select_by_id_def bolt_def)
  have q: "quantity bolt + 5 = 105" by (simp add: bolt_def)
  from add_stock_spec [of "- 1" "[bolt]" 7] neg
  have a: "add_stock [bolt] 7 (- 1) =
      (Some (ValueError ''Quantity to add must be non-negative.''), [bolt])"
    by simp
  from add_stock_spec [of 9223372036854775808 "[bolt]" 7] big
  have o: "add_stock [bolt] 7 9223372036854775808 = (Some OverflowError, [bolt])"
    by simp
  from add_stock_spec [of 5 "[bolt]" 7] pos fits g7 q
  have b: "\<exists>t'. add_stock [bolt] 7 5 = (None, t') \<and>
      get_product t' 7 = Some (bolt\<lparr>quantity := 105\<rparr>)"
    by auto
  from add_stock_spec [of 5 "[bolt]" 8] pos fits g8
  have c: "add_stock [bolt] 8 5 = (None, [bolt])"
    by auto
  from a o b c show ?thesis by blast
qed



text \<open>
  The stock operations keep a non-negative quantity non-negative, whatever their
  arguments: a call that would take more than there is raises before it writes.
\<close>

lemma run_call_keeps_nonneg:
  assumes "get_product t i = Some r" and "0 \<le> quantity r"
  shows "\<exists>r'. get_product (snd (run_call t c)) i = Some r' \<and> 0 \<le> quantity r'"
proof (cases c)
  case (Add_stock j q)
  then show ?thesis
    using assms
    by (cases "j = i")
      (auto simp: get_product_def add_stock_def bind_int_def select_update_same
         select_update_other sql_add_nonneg)
next
  case (Remove_stock j q)
  then show ?thesis
    using assms
    by (cases "j = i")
      (auto simp: get_product_def remove_stock_def select_update_same select_update_other
         split: option.splits)
qed

lemma run_calls_keep_nonneg:
  "get_product t i = Some r \<Longrightarrow> 0 \<le> quantity r \<Longrightarrow>
   \<exists>r'. get_product (run_calls t cs) i = Some r' \<and> 0 \<le> quantity r'"
proof (induction cs arbitrary: t r)
  case Nil
  then show ?case by simp
next
  case (Cons c cs)
  from run_call_keeps_nonneg [OF Cons.prems]
  obtain r1 where "get_product (snd (run_call t c)) i = Some r1" "0 \<le> quantity r1"
    by blast
  from Cons.IH [OF this] show ?case by simp
qed

text \<open>
  Claim C1. Take any sequence of \<^verbatim>\<open>add_stock\<close> and \<^verbatim>\<open>remove_stock\<close> calls each of which
  meets its precondition in the table it is run on (a non-negative quantity argument
  and, for a removal, a quantity not above the current stock), and any product whose
  stored quantity is not negative before the sequence. Then the product is still
  stored after the sequence and its quantity is not negative.
\<close>

theorem stock_never_negative:
  assumes "calls_pre t cs" and "get_product t i = Some r" and "0 \<le> quantity r"
  shows "\<exists>r'. get_product (run_calls t cs) i = Some r' \<and> 0 \<le> quantity r'"
  using assms(2,3) by (rule run_calls_keep_nonneg)

theorem stock_never_negative_witness:
  "calls_pre [bolt] [Add_stock 7 5, Remove_stock 7 105, Add_stock 8 1] \<and>
   get_product [bolt] 7 = Some bolt \<and> 0 \<le> quantity bolt \<and>
   (\<exists>r'. get_product (run_calls [bolt] [Add_stock 7 5, Remove_stock 7 105, Add_stock 8 1]) 7
       = Some r' \<and> 0 \<le> quantity r')"
proof -
  have pre: "calls_pre [bolt] [Add_stock 7 5, Remove_stock 7 105, Add_stock 8 1]"
    by (simp add: add_stock_def remove_stock_def select_by_id_def update_quantity_where_def
        bolt_def bind_int_def int64_def sql_add_def)
  have g: "get_product [bolt] 7 = Some bolt"
    by (simp add: get_product_def select_by_id_def bolt_def)
  have q: "0 \<le> quantity bolt" by (simp add: bolt_def)
  from stock_never_negative [OF pre g q] pre g q show ?thesis by blast
qed

text \<open>The same for all rows of a table at once, under the primary key.\<close>

lemma add_stock_nonneg:
  "quantities_nonneg t \<Longrightarrow> quantities_nonneg (snd (add_stock t i q))"
  unfolding add_stock_def quantities_nonneg_def update_quantity_where_def bind_int_def
  by (auto simp: list_all_iff sql_add_nonneg)

lemma remove_stock_nonneg:
  assumes "pk t" and "quantities_nonneg t"
  shows "quantities_nonneg (snd (remove_stock t i q))"
proof (cases "select_by_id t i")
  case None
  then show ?thesis using assms(2) by (simp add: remove_stock_def)
next
  case (Some r)
  show ?thesis
  proof (cases "q < 0 \<or> quantity r < q")
    case True
    then show ?thesis using assms(2) Some by (auto simp: remove_stock_def)
  next
    case False
    have "0 \<le> quantity r' - q" if "r' \<in> set t" "product_id r' = i" for r'
      using select_by_id_unique [OF assms(1) Some that] False by simp
    then show ?thesis
      using assms(2) Some False
      unfolding remove_stock_def quantities_nonneg_def update_quantity_where_def
      by (auto simp: list_all_iff)
  qed
qed

lemma run_call_pk: "pk (snd (run_call t c)) = pk t"
  by (cases c)
    (auto simp: add_stock_def remove_stock_def bind_int_def split: option.splits)

lemma run_call_nonneg:
  "pk t \<Longrightarrow> quantities_nonneg t \<Longrightarrow> quantities_nonneg (snd (run_call t c))"
  by (cases c) (simp_all add: add_stock_nonneg remove_stock_nonneg)

lemma run_calls_nonneg:
  "pk t \<Longrightarrow> quantities_nonneg t \<Longrightarrow> quantities_nonneg (run_calls t cs)"
  by (induction cs arbitrary: t) (simp_all add: run_call_pk run_call_nonneg)

section \<open>Adding and reading a product\<close>

text \<open>
  Claim C8. When \<^verbatim>\<open>add_product\<close> returns, the new row has the identifier \<open>new_id\<close>: the
  one passed in if it is a non-zero integer, otherwise the one the store assigned. No
  row had this identifier before, and \<^verbatim>\<open>get_product(new_id)\<close> now returns the row made of
  \<open>new_id\<close> and exactly the name, quantity, price and description that were passed.
\<close>

theorem add_product_get_product_roundtrip:
  assumes "add_product t name q p d i = (None, t')"
  shows "\<exists>new_id.
           new_id = (case i of None \<Rightarrow> next_rowid t
                     | Some j \<Rightarrow> if j \<noteq> 0 then j else next_rowid t) \<and>
           get_product t new_id = None \<and>
           get_product t' new_id =
             Some \<lparr>product_id = new_id, product_name = name, quantity = q, price = p,
                   description = d\<rparr>"
proof (cases "truthy_id i")
  case True
  then obtain j where j: "i = Some j" "j \<noteq> 0"
    by (auto simp: truthy_id_def split: option.splits)
  with assms True have "j \<notin> set (map product_id t)"
    and "t' = t @ [\<lparr>product_id = j, product_name = name, quantity = q, price = p,
                     description = d\<rparr>]"
    by (auto simp: add_product_def insert_row_def split: if_splits)
  then show ?thesis
    using j by (simp add: get_product_def select_append_new select_by_id_None)
next
  case False
  with assms have "t' = t @ [\<lparr>product_id = next_rowid t, product_name = name, quantity = q,
                     price = p, description = d\<rparr>]"
    by (auto simp: add_product_def insert_row_def)
  moreover from False have "(case i of None \<Rightarrow> next_rowid t
                     | Some j \<Rightarrow> if j \<noteq> 0 then j else next_rowid t) = next_rowid t"
    by (auto simp: truthy_id_def split: option.splits)
  ultimately show ?thesis
    using next_rowid_fresh [of t]
    by (simp add: get_product_def select_append_new select_by_id_None)
qed

theorem add_product_get_product_roundtrip_witness:
  "add_product [bolt] ''Nut'' 40 (1 / 4 :: real) None None =
     (None, [bolt, \<lparr>product_id = 8, product_name = ''Nut'', quantity = 40, price = 1 / 4,
                    description = None\<rparr>]) \<and>
   get_product [bolt, \<lparr>product_id = 8, product_name = ''Nut'', quantity = 40, price = 1 / 4 :: real,
                    description = None\<rparr>] 8 =
     Some \<lparr>product_id = 8, product_name = ''Nut'', quantity = 40, price = 1 / 4,
                    description = None\<rparr>"
proof -
  have a: "add_product [bolt] ''Nut'' 40 (1 / 4 :: real) None None =
     (None, [bolt, \<lparr>product_id = 8, product_name = ''Nut'', quantity = 40, price = 1 / 4,
                    description = None\<rparr>])"
    by (simp add: add_product_def truthy_id_def insert_row_def next_rowid_def bolt_def)
  have n: "next_rowid [bolt] = 8"
    by (simp add: next_rowid_def bolt_def)
  from add_product_get_product_roundtrip [OF a] n a show ?thesis by simp
qed

text \<open>
  Claim C9 says that a supplied identifier is the identifier of the inserted row. The
  source tests \<^verbatim>\<open>if product_id:\<close>, which is false for the identifier 0 as it is for
  \<^verbatim>\<open>None\<close>, so a supplied 0 is dropped and the store assigns an identifier. On an empty
  table \<^verbatim>\<open>add_product(name, q, p, d, product_id=0)\<close> inserts the row with identifier 1.
\<close>

theorem add_product_zero_id:
  "add_product [] name q p d (Some 0) =
     (None, [\<lparr>product_id = 1, product_name = name, quantity = q, price = p, description = d\<rparr>])"
  by (simp add: add_product_def truthy_id_def insert_row_def next_rowid_def)

text \<open>For every other supplied identifier, and when none is supplied, the source does
  what the claim says. A supplied 0 that is already in use is not rejected either.\<close>

lemma add_product_supplied_nonzero:
  "j \<noteq> 0 \<Longrightarrow>
   add_product t name q p d (Some j) =
     (if j \<in> set (map product_id t) then (Some IntegrityError, t)
      else (None, t @ [\<lparr>product_id = j, product_name = name, quantity = q, price = p,
                         description = d\<rparr>]))"
  by (simp add: add_product_def truthy_id_def insert_row_def)

lemma add_product_not_supplied:
  "add_product t name q p d None =
     (None, t @ [\<lparr>product_id = next_rowid t, product_name = name, quantity = q, price = p,
                   description = d\<rparr>])"
  by (simp add: add_product_def truthy_id_def insert_row_def)

lemma add_product_zero_collision:
  "add_product [bolt\<lparr>product_id := 0\<rparr>] name q p d (Some 0) =
     (None, [bolt\<lparr>product_id := 0\<rparr>,
             \<lparr>product_id = 1, product_name = name, quantity = q, price = p, description = d\<rparr>])"
  by (simp add: add_product_def truthy_id_def insert_row_def next_rowid_def bolt_def)

section \<open>Outgoing goods\<close>

lemmas batch_defs =
  process_outgoing_goods_def process_incoming_goods_def outgoing_row_def incoming_row_def
  parse_outgoing_def outgoing_fields_def int_of_def float_of_def item_def and_then_def
  outgoing_update_def add_to_invoice_def select_by_id_def update_quantity_where_def
  insert_row_def move_file_def commit_def write_invoice_def get_product_def bind_int_def
  int64_def

lemmas demo_defs =
  demo_env_def bolt_def nut_def outgoing_batch_def incoming_batch_def outgoing_world_def
  incoming_world_def blocked_world_def unknown_world_def restock_world_def

text \<open>What a returning run of \<^verbatim>\<open>process_outgoing_goods\<close> has done: the loop ran over the
  rows of the file without raising, its table is the committed one, and its invoice is
  the one written.\<close>

lemma process_outgoing_goods_returns:
  assumes "process_outgoing_goods env w f = (None, w')"
    and "csv_rows env (files w) f = Some rows"
  shows "\<exists>t lines.
           outgoing_rows env (database w, []) rows = Inr (t, lines) \<and>
           database w' = t \<and> last (effects w') = Invoice_written f lines"
  using assms
  by (auto simp: process_outgoing_goods_def move_file_def commit_def write_invoice_def
      split: sum.splits option.splits)

text \<open>One pass of the select and update, read through a select afterwards.\<close>

lemma outgoing_update_select:
  assumes "outgoing_update t j q = Inr t1"
  shows "select_by_id t1 i =
     (if i = j then map_option (\<lambda>r. r\<lparr>quantity := max (quantity r - q) 0\<rparr>) (select_by_id t i)
      else select_by_id t i)"
proof (cases "select_by_id t j")
  case None
  with assms have "t1 = t"
    by (auto simp: outgoing_update_def and_then_def bind_int_def split: if_splits)
  with None show ?thesis by simp
next
  case (Some r)
  with assms have "t1 = update_quantity_where (\<lambda>_. max (quantity r - q) 0) j t"
    by (auto simp: outgoing_update_def and_then_def bind_int_def split: if_splits)
  with Some show ?thesis
    by (simp add: select_update_same select_update_other)
qed

lemma outgoing_update_absent:
  "outgoing_update t j q = Inr t1 \<Longrightarrow> select_by_id t j = None \<Longrightarrow> t1 = t"
  by (auto simp: outgoing_update_def and_then_def bind_int_def split: if_splits)

lemma outgoing_row_cases:
  assumes "outgoing_row env (t, invoice) row = Inr (t1, invoice1)"
  shows "(parse_outgoing env row = Inr None \<and> t1 = t \<and> invoice1 = invoice) \<or>
     (\<exists>j n q p. parse_outgoing env row = Inr (Some (j, n, q, p)) \<and>
        outgoing_update t j q = Inr t1 \<and> invoice1 = add_to_invoice env invoice j n q p)"
proof (cases "parse_outgoing env row")
  case (Inl e)
  with assms show ?thesis by (simp add: outgoing_row_def)
next
  case (Inr x)
  show ?thesis
  proof (cases x)
    case None
    with Inr assms show ?thesis by (simp add: outgoing_row_def)
  next
    case (Some e)
    obtain j n q p where e: "e = (j, n, q, p)" by (cases e) auto
    with Inr Some assms show ?thesis
      by (auto simp: outgoing_row_def and_then_def split: sum.splits)
  qed
qed

lemma rows_of_Cons:
  "rows_of i ((j, n, q, p) # es) = (if j = i then (q, p) # rows_of i es else rows_of i es)"
  by (simp add: rows_of_def)

lemma invoice_rows_Cons:
  "invoice_rows env (row # rows) =
     (case parse_outgoing env row of
        Inl e \<Rightarrow> invoice_rows env rows
      | Inr None \<Rightarrow> invoice_rows env rows
      | Inr (Some x) \<Rightarrow> x # invoice_rows env rows)"
  by (simp add: invoice_rows_def split: sum.splits option.splits)

text \<open>The table after the loop, product by product: the quantity of a row has been
  taken through the rows of the file that name its identifier, in their order, each
  taking its quantity off and stopping at zero; nothing else of the row changed and no
  row came or went.\<close>

lemma outgoing_rows_table:
  "outgoing_rows env (t, invoice) rows = Inr (t', invoice') \<Longrightarrow>
   select_by_id t' i =
     map_option
       (\<lambda>r. r\<lparr>quantity := foldl (\<lambda>c q. max (c - q) 0) (quantity r)
                              (map fst (rows_of i (invoice_rows env rows)))\<rparr>)
       (select_by_id t i)"
proof (induction rows arbitrary: t invoice)
  case Nil
  then show ?case
    by (cases "select_by_id t i") (simp_all add: invoice_rows_def rows_of_def)
next
  case (Cons row rows)
  from Cons.prems obtain t1 invoice1
    where step: "outgoing_row env (t, invoice) row = Inr (t1, invoice1)"
      and rest: "outgoing_rows env (t1, invoice1) rows = Inr (t', invoice')"
    by (auto split: sum.splits)
  note IH = Cons.IH [OF rest]
  from outgoing_row_cases [OF step] show ?case
  proof (elim disjE conjE exE)
    assume "parse_outgoing env row = Inr None" "t1 = t"
    with IH show ?thesis by (simp add: invoice_rows_Cons)
  next
    fix j n q p
    assume parsed: "parse_outgoing env row = Inr (Some (j, n, q, p))"
      and upd: "outgoing_update t j q = Inr t1"
    show ?thesis
      unfolding IH outgoing_update_select [OF upd, of i]
      by (cases "select_by_id t i")
        (auto simp: invoice_rows_Cons parsed rows_of_Cons)
  qed
qed

lemma outgoing_rows_absent:
  "outgoing_rows env (t, invoice) rows = Inr (t', invoice') \<Longrightarrow>
   \<forall>e \<in> set (invoice_rows env rows). select_by_id t (fst e) = None \<Longrightarrow> t' = t"
proof (induction rows arbitrary: t invoice)
  case Nil
  then show ?case by simp
next
  case (Cons row rows)
  from Cons.prems(1) obtain t1 invoice1
    where step: "outgoing_row env (t, invoice) row = Inr (t1, invoice1)"
      and rest: "outgoing_rows env (t1, invoice1) rows = Inr (t', invoice')"
    by (auto split: sum.splits)
  from outgoing_row_cases [OF step] have t1: "t1 = t"
  proof (elim disjE conjE exE)
    fix j n q p
    assume parsed: "parse_outgoing env row = Inr (Some (j, n, q, p))"
      and upd: "outgoing_update t j q = Inr t1"
    from parsed Cons.prems(2) have "select_by_id t j = None"
      by (simp add: invoice_rows_Cons)
    with upd show ?thesis by (rule outgoing_update_absent)
  qed
  from outgoing_row_cases [OF step] Cons.prems(2)
  have "\<forall>e \<in> set (invoice_rows env rows). select_by_id t (fst e) = None"
    by (auto simp: invoice_rows_Cons)
  with Cons.IH [OF rest [unfolded t1]] show ?case by simp
qed

lemma outgoing_rows_parsed:
  "outgoing_rows env st rows = Inr st' \<Longrightarrow> row \<in> set rows \<Longrightarrow>
   \<exists>x. parse_outgoing env row = Inr x"
proof (induction rows arbitrary: st)
  case Nil
  then show ?case by simp
next
  case (Cons r rows)
  from Cons.prems(1) obtain st1
    where step: "outgoing_row env st r = Inr st1"
      and rest: "outgoing_rows env st1 rows = Inr st'"
    by (auto split: sum.splits)
  show ?case
  proof (cases "row = r")
    case True
    with step show ?thesis
      by (cases "parse_outgoing env r") (simp_all add: outgoing_row_def)
  next
    case False
    with Cons.prems(2) have "row \<in> set rows" by simp
    from Cons.IH [OF rest this] show ?thesis .
  qed
qed

lemma floor_fold_nonneg:
  "qs \<noteq> [] \<Longrightarrow> 0 \<le> foldl (\<lambda>c q. max (c - q) 0) (c :: int) qs"
  by (cases qs rule: rev_cases) simp_all

text \<open>
  Claim C3. Let \<^verbatim>\<open>process_outgoing_goods\<close> return on a batch file, on a table of
  64-bit quantities that has the row \<open>r\<close> for the identifier \<open>i\<close>. The committed table
  then has for \<open>i\<close> the row \<open>r\<close> with a new quantity, and nothing else of it changed: the
  quantity is that of \<open>r\<close> taken through the rows of the file that name \<open>i\<close>, in their
  order, each row turning the quantity \<open>c\<close> it finds into \<open>max (c - q) 0\<close> for its own
  quantity \<open>q\<close>. With one row for \<open>i\<close> the stored quantity is \<open>max (quantity r - q) 0\<close>, and
  with at least one row it is not negative, whatever the quantities of the rows are.
\<close>

theorem outgoing_floor_at_zero:
  assumes "process_outgoing_goods env w f = (None, w')"
    and "csv_rows env (files w) f = Some rows"
    and "stored_int64 (database w)"
    and "get_product (database w) i = Some r"
  shows "get_product (database w') i =
           Some (r\<lparr>quantity := foldl (\<lambda>c q. max (c - q) 0) (quantity r)
                                 (map fst (rows_of i (invoice_rows env rows)))\<rparr>) \<and>
         (\<forall>q p. rows_of i (invoice_rows env rows) = [(q, p)] \<longrightarrow>
            get_product (database w') i = Some (r\<lparr>quantity := max (quantity r - q) 0\<rparr>)) \<and>
         (rows_of i (invoice_rows env rows) \<noteq> [] \<longrightarrow>
            0 \<le> foldl (\<lambda>c q. max (c - q) 0) (quantity r)
                   (map fst (rows_of i (invoice_rows env rows))))"
proof -
  from process_outgoing_goods_returns [OF assms(1,2)] obtain lines
    where loop: "outgoing_rows env (database w, []) rows = Inr (database w', lines)"
    by auto
  from outgoing_rows_table [OF loop, of i] assms(4)
  have final: "get_product (database w') i =
      Some (r\<lparr>quantity := foldl (\<lambda>c q. max (c - q) 0) (quantity r)
                            (map fst (rows_of i (invoice_rows env rows)))\<rparr>)"
    by (simp add: get_product_def)
  moreover have "get_product (database w') i = Some (r\<lparr>quantity := max (quantity r - q) 0\<rparr>)"
    if "rows_of i (invoice_rows env rows) = [(q, p)]" for q p
    using final that by simp
  moreover have "0 \<le> foldl (\<lambda>c q. max (c - q) 0) (quantity r)
      (map fst (rows_of i (invoice_rows env rows)))"
    if "rows_of i (invoice_rows env rows) \<noteq> []"
    using that by (intro floor_fold_nonneg) simp
  ultimately show ?thesis by blast
qed

theorem outgoing_floor_at_zero_witness:
  "process_outgoing_goods demo_env outgoing_world ''out.csv'' =
     (None, snd (process_outgoing_goods demo_env outgoing_world ''out.csv'')) \<and>
   stored_int64 (database outgoing_world) \<and>
   get_product (database outgoing_world) 7 = Some bolt \<and>
   rows_of 7 (invoice_rows demo_env outgoing_batch) = [(30, 1 / 2), (90, 1 / 2)] \<and>
   get_product (database (snd (process_outgoing_goods demo_env outgoing_world ''out.csv''))) 7 =
     Some (bolt\<lparr>quantity := 0\<rparr>)"
proof -
  have run: "process_outgoing_goods demo_env outgoing_world ''out.csv'' =
     (None, snd (process_outgoing_goods demo_env outgoing_world ''out.csv''))"
    by (simp add: batch_defs demo_defs)
  have src: "csv_rows demo_env (files outgoing_world) ''out.csv'' = Some outgoing_batch"
    by (simp add: demo_env_def outgoing_world_def)
  have dom: "stored_int64 (database outgoing_world)"
    by (simp add: stored_int64_def outgoing_world_def bolt_def int64_def)
  have g: "get_product (database outgoing_world) 7 = Some bolt"
    by (simp add: get_product_def select_by_id_def outgoing_world_def bolt_def)
  have rows: "rows_of 7 (invoice_rows demo_env outgoing_batch) = [(30, 1 / 2), (90, 1 / 2)]"
    by (simp add: rows_of_def invoice_rows_def batch_defs demo_defs)
  have q: "quantity bolt = 100" by (simp add: bolt_def)
  from outgoing_floor_at_zero [OF run src dom g]
  have "get_product (database (snd (process_outgoing_goods demo_env outgoing_world ''out.csv''))) 7
      = Some (bolt\<lparr>quantity := 0\<rparr>)"
    by (simp add: rows q)
  with run dom g rows show ?thesis by simp
qed

section \<open>The merged invoice\<close>

text \<open>The invoice after the loop is the fold of the invoice step over the rows that
  reach the invoice, in the order of the file.\<close>

lemma outgoing_rows_invoice:
  "outgoing_rows env (t, invoice) rows = Inr (t', invoice') \<Longrightarrow>
   invoice' = foldl (\<lambda>acc (i, n, q, p). add_to_invoice env acc i n q p) invoice
                (invoice_rows env rows)"
proof (induction rows arbitrary: t invoice)
  case Nil
  then show ?case by (simp add: invoice_rows_def)
next
  case (Cons row rows)
  from Cons.prems obtain t1 invoice1
    where step: "outgoing_row env (t, invoice) row = Inr (t1, invoice1)"
      and rest: "outgoing_rows env (t1, invoice1) rows = Inr (t', invoice')"
    by (auto split: sum.splits)
  from outgoing_row_cases [OF step] Cons.IH [OF rest] show ?case
    by (auto simp: invoice_rows_Cons)
qed

text \<open>The lines of one identifier in the folded invoice, by induction on the rows
  from the last: there is none while no row has named the identifier, and one from
  then on, which gathers the quantities and the amounts.\<close>

lemma filter_update_first:
  assumes "\<And>x. Product_ID (f x) = Product_ID x"
  shows "filter (\<lambda>it. Product_ID it = i) (update_first (\<lambda>it. Product_ID it = j) f xs) =
     (if i = j
      then (case filter (\<lambda>it. Product_ID it = j) xs of [] \<Rightarrow> [] | y # ys \<Rightarrow> f y # ys)
      else filter (\<lambda>it. Product_ID it = i) xs)"
  using assms by (induction xs) auto

lemma find_None_filter:
  "find P xs = None \<longleftrightarrow> filter P xs = []"
  by (induction xs) auto

lemma float_sum_snoc:
  "xs \<noteq> [] \<Longrightarrow>
   float_sum env (xs @ [a]) = map_option (\<lambda>s. float_add env s a) (float_sum env xs)"
  by (cases xs) simp_all

lemma rows_of_snoc:
  "rows_of i (es @ [(j, n, q, p)]) = rows_of i es @ (if j = i then [(q, p)] else [])"
  by (simp add: rows_of_def)

lemma invoice_fold_lines:
  fixes env :: "('p, 'fs) env"
  defines "step \<equiv> \<lambda>acc (i, n, q, p). add_to_invoice env acc i n q p"
  shows "(rows_of i es = [] \<longrightarrow> filter (\<lambda>it. Product_ID it = i) (foldl step [] es) = []) \<and>
     (rows_of i es \<noteq> [] \<longrightarrow>
        (\<exists>line. filter (\<lambda>it. Product_ID it = i) (foldl step [] es) = [line] \<and>
           Quantity line = sum_list (map fst (rows_of i es)) \<and>
           float_sum env (map (\<lambda>(q, p). float_mul env q p) (rows_of i es)) =
             Some (Total_Price line)))"
proof (induction es arbitrary: i rule: rev_induct)
  case Nil
  then show ?case by (simp add: rows_of_def)
next
  case (snoc e es)
  obtain j n q p where e: "e = (j, n, q, p)" by (cases e) auto
  let ?acc = "foldl step [] es"
  let ?f = "\<lambda>it. it\<lparr>Quantity := Quantity it + q,
      Total_Price := float_add env (Total_Price it) (float_mul env q p)\<rparr>"
  have acc': "step ?acc (j, n, q, p) = add_to_invoice env ?acc j n q p"
    by (simp add: step_def)
  show ?case
  proof (cases "rows_of j es = []")
    case True
    with snoc.IH [of j] have "filter (\<lambda>it. Product_ID it = j) ?acc = []"
      by simp
    then have new: "add_to_invoice env ?acc j n q p =
        ?acc @ [\<lparr>Product_ID = j, Product_Name = n, Quantity = q, Unit_Price = p,
                 Total_Price = float_mul env q p\<rparr>]"
      by (simp add: add_to_invoice_def find_None_filter [symmetric])
    show ?thesis
    proof (cases "i = j")
      case same: True
      with True snoc.IH [of j] show ?thesis
        by (simp add: e rows_of_snoc acc' new)
    next
      case False
      with snoc.IH [of i] show ?thesis
        by (simp add: e rows_of_snoc acc' new)
    qed
  next
    case False
    with snoc.IH [of j] obtain line
      where line: "filter (\<lambda>it. Product_ID it = j) ?acc = [line]"
        and qty: "Quantity line = sum_list (map fst (rows_of j es))"
        and tot: "float_sum env (map (\<lambda>(q, p). float_mul env q p) (rows_of j es)) =
             Some (Total_Price line)"
      by blast
    from line have "find (\<lambda>it. Product_ID it = j) ?acc \<noteq> None"
      by (simp add: find_None_filter)
    then have upd: "add_to_invoice env ?acc j n q p =
        update_first (\<lambda>it. Product_ID it = j) ?f ?acc"
      by (auto simp: add_to_invoice_def)
    have keep: "Product_ID (?f x) = Product_ID x" for x :: "'p invoice_item"
      by simp
    show ?thesis
    proof (cases "i = j")
      case True
      have "filter (\<lambda>it. Product_ID it = j) (update_first (\<lambda>it. Product_ID it = j) ?f ?acc)
          = [?f line]"
        using line by (simp add: filter_update_first [of ?f, OF keep])
      moreover have "rows_of j es \<noteq> []" by (rule False)
      ultimately show ?thesis
        using True qty tot
        by (simp add: e rows_of_snoc acc' upd float_sum_snoc)
    next
      case False
      have "filter (\<lambda>it. Product_ID it = i) (update_first (\<lambda>it. Product_ID it = j) ?f ?acc)
          = filter (\<lambda>it. Product_ID it = i) ?acc"
        using False by (simp add: filter_update_first [of ?f, OF keep])
      with snoc.IH [of i] False show ?thesis
        by (simp add: e rows_of_snoc acc' upd)
    qed
  qed
qed

text \<open>
  Claim C5. Let \<^verbatim>\<open>process_outgoing_goods\<close> return on a batch file and let \<open>i\<close> be an
  identifier that at least one row of the file refers to. Then the invoice written has
  exactly one line for \<open>i\<close>. Its quantity is the sum of the quantities of the rows of
  \<open>i\<close>, and its total price is the sum of their quantity times unit price, the floats
  being added from the left in the order of the rows. On the scenario of the
  specification (two rows for product 7 at 0.50, quantities 30 and 90) the one line has
  quantity 120 and total price 60.
\<close>

theorem outgoing_invoice_merges_rows:
  assumes "process_outgoing_goods env w f = (None, w')"
    and "csv_rows env (files w) f = Some rows"
    and "rows_of i (invoice_rows env rows) \<noteq> []"
  shows "\<exists>lines line.
           last (effects w') = Invoice_written f lines \<and>
           filter (\<lambda>it. Product_ID it = i) lines = [line] \<and>
           Quantity line = sum_list (map fst (rows_of i (invoice_rows env rows))) \<and>
           float_sum env (map (\<lambda>(q, p). float_mul env q p) (rows_of i (invoice_rows env rows))) =
             Some (Total_Price line)"
proof -
  from process_outgoing_goods_returns [OF assms(1,2)] obtain t lines
    where loop: "outgoing_rows env (database w, []) rows = Inr (t, lines)"
      and written: "last (effects w') = Invoice_written f lines"
    by auto
  from outgoing_rows_invoice [OF loop]
  have "lines = foldl (\<lambda>acc (i, n, q, p). add_to_invoice env acc i n q p) []
      (invoice_rows env rows)" .
  with invoice_fold_lines [of i "invoice_rows env rows" env] assms(3) written
  show ?thesis by blast
qed

theorem outgoing_invoice_merges_rows_witness:
  "\<exists>lines line.
     last (effects (snd (process_outgoing_goods demo_env outgoing_world ''out.csv''))) =
       Invoice_written ''out.csv'' lines \<and>
     filter (\<lambda>it. Product_ID it = 7) lines = [line] \<and>
     Quantity line = 120 \<and> Total_Price line = 60"
proof -
  have run: "process_outgoing_goods demo_env outgoing_world ''out.csv'' =
     (None, snd (process_outgoing_goods demo_env outgoing_world ''out.csv''))"
    by (simp add: batch_defs demo_defs)
  have src: "csv_rows demo_env (files outgoing_world) ''out.csv'' = Some outgoing_batch"
    by (simp add: demo_env_def outgoing_world_def)
  have rows: "rows_of 7 (invoice_rows demo_env outgoing_batch) = [(30, 1 / 2), (90, 1 / 2)]"
    by (simp add: rows_of_def invoice_rows_def batch_defs demo_defs)
  then have ne: "rows_of 7 (invoice_rows demo_env outgoing_batch) \<noteq> []"
    by simp
  have total: "float_sum demo_env (map (\<lambda>(q, p). float_mul demo_env q p)
      [(30, 1 / 2), (90, 1 / 2)]) = Some 60"
    by (simp add: demo_env_def)
  from outgoing_invoice_merges_rows [OF run src ne] rows total
  show ?thesis by simp
qed

section \<open>Invoice lines for products that are not in the catalog\<close>

lemma parsed_in_invoice_rows:
  "row \<in> set rows \<Longrightarrow> parse_outgoing env row = Inr (Some x) \<Longrightarrow>
   x \<in> set (invoice_rows env rows)"
  by (induction rows) (auto simp: invoice_rows_Cons split: sum.splits option.splits)

lemma rows_of_nonempty:
  "(i, n, q, p) \<in> set es \<Longrightarrow> rows_of i es \<noteq> []"
  by (auto simp: rows_of_def filter_empty_conv)

text \<open>
  Claim C10. Let \<^verbatim>\<open>process_outgoing_goods\<close> return on a batch file, on a table of
  64-bit quantities, and take any row of the file with a non-empty \<^verbatim>\<open>CODECONTENT\<close>; let
  \<open>i\<close> be the identifier read from it. Whether or not the table has a row for \<open>i\<close>, the
  invoice written has one line for \<open>i\<close>, which carries the sum of the quantities and the
  sum of the amounts of all rows of the file that name \<open>i\<close>, this row among them. When
  the table has no row for \<open>i\<close>, the committed table has none either; and when every
  row of the file names an identifier that is not in the table, the committed table is
  the table as it was. The evaluation below is the batch of two rows for product 7 on a
  catalog that holds only product 8: the invoice has the line for product 7 and the
  catalog is unchanged.
\<close>

theorem outgoing_invoice_line_without_product:
  assumes "process_outgoing_goods env w f = (None, w')"
    and "csv_rows env (files w) f = Some rows"
    and "stored_int64 (database w)"
    and "row \<in> set rows" and "CODECONTENT row = Some c" and "c \<noteq> []"
  shows "\<exists>i n q p lines line.
           parse_outgoing env row = Inr (Some (i, n, q, p)) \<and>
           last (effects w') = Invoice_written f lines \<and>
           filter (\<lambda>it. Product_ID it = i) lines = [line] \<and>
           Quantity line = sum_list (map fst (rows_of i (invoice_rows env rows))) \<and>
           float_sum env (map (\<lambda>(q, p). float_mul env q p) (rows_of i (invoice_rows env rows))) =
             Some (Total_Price line) \<and>
           (get_product (database w) i = None \<longrightarrow> get_product (database w') i = None) \<and>
           ((\<forall>e \<in> set (invoice_rows env rows). get_product (database w) (fst e) = None) \<longrightarrow>
              database w' = database w)"
proof -
  from process_outgoing_goods_returns [OF assms(1,2)] obtain lines
    where loop: "outgoing_rows env (database w, []) rows = Inr (database w', lines)"
      and written: "last (effects w') = Invoice_written f lines"
    by auto
  from outgoing_rows_parsed [OF loop assms(4)] obtain x
    where x: "parse_outgoing env row = Inr x" by blast
  with assms(5,6) obtain i n q p where parsed: "parse_outgoing env row = Inr (Some (i, n, q, p))"
    by (cases x) (auto simp: parse_outgoing_def split: sum.splits)
  from parsed_in_invoice_rows [OF assms(4) parsed]
  have ne: "rows_of i (invoice_rows env rows) \<noteq> []"
    by (rule rows_of_nonempty)
  from outgoing_rows_invoice [OF loop]
  have "lines = foldl (\<lambda>acc (i, n, q, p). add_to_invoice env acc i n q p) []
      (invoice_rows env rows)" .
  with invoice_fold_lines [of i "invoice_rows env rows" env] ne obtain line
    where line: "filter (\<lambda>it. Product_ID it = i) lines = [line]"
      "Quantity line = sum_list (map fst (rows_of i (invoice_rows env rows)))"
      "float_sum env (map (\<lambda>(q, p). float_mul env q p) (rows_of i (invoice_rows env rows))) =
         Some (Total_Price line)"
    by blast
  have absent: "get_product (database w') i = None" if "get_product (database w) i = None"
    using outgoing_rows_table [OF loop, of i] that by (simp add: get_product_def)
  have same: "database w' = database w"
    if "\<forall>e \<in> set (invoice_rows env rows). get_product (database w) (fst e) = None"
    using outgoing_rows_absent [OF loop] that by (simp add: get_product_def)
  show ?thesis
    apply (rule_tac x = i in exI, rule_tac x = n in exI)
    apply (rule_tac x = q in exI, rule_tac x = p in exI)
    apply (rule_tac x = lines in exI, rule_tac x = line in exI)
    using parsed written line absent same by simp
qed

theorem outgoing_invoice_line_without_product_witness:
  "(\<exists>lines line.
      last (effects (snd (process_outgoing_goods demo_env unknown_world ''out.csv''))) =
        Invoice_written ''out.csv'' lines \<and>
      filter (\<lambda>it. Product_ID it = 7) lines = [line] \<and>
      Quantity line = 120 \<and> Total_Price line = 60) \<and>
   get_product (database unknown_world) 7 = None \<and>
   database (snd (process_outgoing_goods demo_env unknown_world ''out.csv'')) = [nut]"
proof -
  let ?row = "\<lparr>CODECONTENT = Some ''7, Bolt, 0.50'', QUANTITY = Some ''30''\<rparr>"
  let ?w' = "snd (process_outgoing_goods demo_env unknown_world ''out.csv'')"
  have run: "process_outgoing_goods demo_env unknown_world ''out.csv'' = (None, ?w')"
    by (simp add: batch_defs demo_defs)
  have src: "csv_rows demo_env (files unknown_world) ''out.csv'' = Some outgoing_batch"
    by (simp add: demo_env_def unknown_world_def)
  have dom: "stored_int64 (database unknown_world)"
    by (simp add: stored_int64_def unknown_world_def nut_def int64_def)
  have mem: "?row \<in> set outgoing_batch"
    by (simp add: outgoing_batch_def)
  have c: "CODECONTENT ?row = Some ''7, Bolt, 0.50''" and ne: "''7, Bolt, 0.50'' \<noteq> []"
    by simp_all
  have p: "parse_outgoing demo_env ?row = Inr (Some (7, ''Bolt'', 30, 1 / 2))"
    by (simp add: batch_defs demo_defs)
  have all: "invoice_rows demo_env outgoing_batch = [(7, ''Bolt'', 30, 1 / 2), (7, ''Bolt'', 90, 1 / 2)]"
    by (simp add: invoice_rows_def batch_defs demo_defs)
  have rows: "rows_of 7 (invoice_rows demo_env outgoing_batch) = [(30, 1 / 2), (90, 1 / 2)]"
    by (simp add: all rows_of_def)
  have total: "float_sum demo_env (map (\<lambda>(q, p). float_mul demo_env q p)
      [(30, 1 / 2), (90, 1 / 2)]) = Some 60"
    by (simp add: demo_env_def)
  have g: "get_product (database unknown_world) 7 = None"
    by (simp add: get_product_def select_by_id_def unknown_world_def nut_def)
  have db: "database unknown_world = [nut]"
    by (simp add: unknown_world_def)
  from outgoing_invoice_line_without_product [OF run src dom mem c ne]
  obtain i n q x lines line
    where parsed: "parse_outgoing demo_env ?row = Inr (Some (i, n, q, x))"
      and written: "last (effects ?w') = Invoice_written ''out.csv'' lines"
      and line: "filter (\<lambda>it. Product_ID it = i) lines = [line]"
        "Quantity line = sum_list (map fst (rows_of i (invoice_rows demo_env outgoing_batch)))"
        "float_sum demo_env (map (\<lambda>(q, p). float_mul demo_env q p)
           (rows_of i (invoice_rows demo_env outgoing_batch))) = Some (Total_Price line)"
      and same: "(\<forall>e \<in> set (invoice_rows demo_env outgoing_batch).
          get_product (database unknown_world) (fst e) = None) \<longrightarrow>
        database ?w' = database unknown_world"
    by (elim exE conjE) (rule that)
  from parsed p have i: "i = 7" by simp
  from line rows total have "filter (\<lambda>it. Product_ID it = 7) lines = [line]"
    "Quantity line = 120" "Total_Price line = 60"
    unfolding i by simp_all
  moreover from same all g have "database ?w' = [nut]"
    by (simp add: db)
  ultimately show ?thesis using written g by blast
qed

section \<open>Incoming goods\<close>

lemma process_incoming_goods_returns:
  assumes "process_incoming_goods env w f = (None, w')"
    and "csv_rows env (files w) f = Some rows"
  shows "incoming_rows env (database w) rows = Inr (database w')"
  using assms
  by (auto simp: process_incoming_goods_def move_file_def commit_def
      split: sum.splits option.splits)

text \<open>What one pass of the loop body that does not raise has done.\<close>

lemma incoming_row_cases:
  assumes "incoming_row env t row = Inr t1"
  shows "(incoming_entry env row = None \<and> t1 = t) \<or>
     (\<exists>j q info. incoming_entry env row = Some (j, q, info) \<and>
        ((\<exists>r. select_by_id t j = Some r \<and>
              t1 = update_quantity_where (\<lambda>_. quantity r + q) j t) \<or>
         (select_by_id t j = None \<and>
            (\<exists>n s2 p d. item info 1 = Inr n \<and> item info 2 = Inr s2 \<and>
               float_of env s2 = Inr p \<and> item info 3 = Inr d \<and>
               t1 = t @ [\<lparr>product_id = j, product_name = n, quantity = q, price = p,
                          description = Some d\<rparr>]))))"
proof (cases "CODECONTENT row")
  case None
  with assms show ?thesis by (simp add: incoming_row_def incoming_entry_def)
next
  case (Some c)
  show ?thesis
  proof (cases "c = []")
    case True
    with Some assms show ?thesis by (simp add: incoming_row_def incoming_entry_def)
  next
    case False
    let ?info = "split_comma_space c"
    from assms Some False obtain s0 j
      where s0: "item ?info 0 = Inr s0" and j: "int_of env (Some s0) = Inr j" and "int64 j"
      by (auto simp: incoming_row_def and_then_def bind_int_def Let_def
          split: sum.splits if_splits)
    show ?thesis
    proof (cases "select_by_id t j")
      case existing: (Some r)
      with assms Some False s0 j \<open>int64 j\<close> obtain q
        where q: "int_of env (QUANTITY row) = Inr q"
          and t1: "t1 = update_quantity_where (\<lambda>_. quantity r + q) j t"
        by (auto simp: incoming_row_def and_then_def bind_int_def Let_def
            split: sum.splits if_splits)
      have "incoming_entry env row = Some (j, q, ?info)"
        using Some False s0 j q by (simp add: incoming_entry_def and_then_def)
      with existing t1 show ?thesis by blast
    next
      case None
      with assms Some False s0 j \<open>int64 j\<close> obtain n q s2 p d
        where n: "item ?info 1 = Inr n" and q: "int_of env (QUANTITY row) = Inr q"
          and s2: "item ?info 2 = Inr s2" and p: "float_of env s2 = Inr p"
          and d: "item ?info 3 = Inr d"
          and ins: "insert_row t (Some j) n q p (Some d) = Inr t1"
        by (auto simp: incoming_row_def and_then_def bind_int_def Let_def
            split: sum.splits if_splits)
      from None have "j \<notin> set (map product_id t)"
        by (simp add: select_by_id_None)
      with ins have t1: "t1 = t @ [\<lparr>product_id = j, product_name = n, quantity = q, price = p,
          description = Some d\<rparr>]"
        by (auto simp: insert_row_def split: if_splits)
      have "incoming_entry env row = Some (j, q, ?info)"
        using Some False s0 j q by (simp add: incoming_entry_def and_then_def)
      with None n s2 p d t1 show ?thesis by blast
    qed
  qed
qed

lemma entries_of_Cons:
  "entries_of i ((j, q, info) # es) =
     (if j = i then (q, info) # entries_of i es else entries_of i es)"
  by (simp add: entries_of_def)

lemma incoming_entries_Cons:
  "incoming_entries env (row # rows) =
     (case incoming_entry env row of
        None \<Rightarrow> incoming_entries env rows
      | Some x \<Rightarrow> x # incoming_entries env rows)"
  by (simp add: incoming_entries_def split: option.splits)

text \<open>The table after the loop, product by product. A row that was there has gained
  the quantities of the rows of the file that name it. An identifier that was not
  there and is named by the file has the row that the first of its rows inserted, with
  the quantities of the later ones added.\<close>

lemma incoming_rows_existing:
  "incoming_rows env t rows = Inr t' \<Longrightarrow> select_by_id t i = Some r \<Longrightarrow>
   select_by_id t' i =
     Some (r\<lparr>quantity := quantity r +
                 sum_list (map fst (entries_of i (incoming_entries env rows)))\<rparr>)"
proof (induction rows arbitrary: t r)
  case Nil
  then show ?case by (simp add: incoming_entries_def entries_of_def)
next
  case (Cons row rows)
  from Cons.prems(1) obtain t1
    where step: "incoming_row env t row = Inr t1"
      and rest: "incoming_rows env t1 rows = Inr t'"
    by (auto split: sum.splits)
  from incoming_row_cases [OF step] show ?case
  proof (elim disjE conjE exE)
    assume "incoming_entry env row = None" "t1 = t"
    with Cons.IH [OF rest] Cons.prems(2) show ?thesis
      by (simp add: incoming_entries_Cons)
  next
    fix j q info r0
    assume e: "incoming_entry env row = Some (j, q, info)"
      and r0: "select_by_id t j = Some r0"
      and t1: "t1 = update_quantity_where (\<lambda>_. quantity r0 + q) j t"
    show ?thesis
    proof (cases "j = i")
      case True
      with r0 Cons.prems(2) have "r0 = r" by simp
      with t1 True Cons.prems(2)
      have "select_by_id t1 i = Some (r\<lparr>quantity := quantity r + q\<rparr>)"
        by (simp add: select_update_same)
      from Cons.IH [OF rest this] True show ?thesis
        by (simp add: incoming_entries_Cons e entries_of_Cons add.assoc)
    next
      case False
      with t1 Cons.prems(2) have "select_by_id t1 i = Some r"
        by (simp add: select_update_other)
      from Cons.IH [OF rest this] False show ?thesis
        by (simp add: incoming_entries_Cons e entries_of_Cons)
    qed
  next
    fix j q info n s2 p d
    assume e: "incoming_entry env row = Some (j, q, info)"
      and none: "select_by_id t j = None"
      and t1: "t1 = t @ [\<lparr>product_id = j, product_name = n, quantity = q, price = p,
          description = Some d\<rparr>]"
    from none Cons.prems(2) have ne: "j \<noteq> i" by auto
    with t1 Cons.prems(2) have "select_by_id t1 i = Some r"
      by (simp add: select_append_old)
    from Cons.IH [OF rest this] ne show ?thesis
      by (simp add: incoming_entries_Cons e entries_of_Cons)
  qed
qed

lemma incoming_rows_new:
  "incoming_rows env t rows = Inr t' \<Longrightarrow> select_by_id t i = None \<Longrightarrow>
   (case entries_of i (incoming_entries env rows) of
      [] \<Rightarrow> select_by_id t' i = None
    | (q, info) # rest \<Rightarrow>
        (\<exists>n s2 p d.
           item info 1 = Inr n \<and> item info 2 = Inr s2 \<and> float_of env s2 = Inr p \<and>
           item info 3 = Inr d \<and>
           select_by_id t' i =
             Some \<lparr>product_id = i, product_name = n,
                   quantity = q + sum_list (map fst rest), price = p,
                   description = Some d\<rparr>))"
proof (induction rows arbitrary: t)
  case Nil
  then show ?case by (simp add: incoming_entries_def entries_of_def)
next
  case (Cons row rows)
  from Cons.prems(1) obtain t1
    where step: "incoming_row env t row = Inr t1"
      and rest: "incoming_rows env t1 rows = Inr t'"
    by (auto split: sum.splits)
  from incoming_row_cases [OF step] show ?case
  proof (elim disjE conjE exE)
    assume "incoming_entry env row = None" "t1 = t"
    with Cons.IH [OF rest] Cons.prems(2) show ?thesis
      by (simp add: incoming_entries_Cons)
  next
    fix j q info r0
    assume e: "incoming_entry env row = Some (j, q, info)"
      and r0: "select_by_id t j = Some r0"
      and t1: "t1 = update_quantity_where (\<lambda>_. quantity r0 + q) j t"
    from r0 Cons.prems(2) have ne: "j \<noteq> i" by auto
    with t1 Cons.prems(2) have "select_by_id t1 i = None"
      by (simp add: select_update_other)
    from Cons.IH [OF rest this] ne show ?thesis
      by (simp add: incoming_entries_Cons e entries_of_Cons)
  next
    fix j q info n s2 p d
    assume e: "incoming_entry env row = Some (j, q, info)"
      and none: "select_by_id t j = None"
      and fields: "item info 1 = Inr n" "item info 2 = Inr s2" "float_of env s2 = Inr p"
        "item info 3 = Inr d"
      and t1: "t1 = t @ [\<lparr>product_id = j, product_name = n, quantity = q, price = p,
          description = Some d\<rparr>]"
    show ?thesis
    proof (cases "j = i")
      case True
      from none have "j \<notin> set (map product_id t)"
        by (simp add: select_by_id_None)
      with t1 True
      have "select_by_id t1 i = Some \<lparr>product_id = i, product_name = n, quantity = q,
          price = p, description = Some d\<rparr>"
        by (simp add: select_append_new)
      from incoming_rows_existing [OF rest this] True fields show ?thesis
        by (simp add: incoming_entries_Cons e entries_of_Cons)
    next
      case False
      with t1 Cons.prems(2) have "select_by_id t1 i = None"
        by (simp add: select_append_old)
      from Cons.IH [OF rest this] False show ?thesis
        by (simp add: incoming_entries_Cons e entries_of_Cons)
    qed
  qed
qed

text \<open>
  Claim C6. Let \<^verbatim>\<open>process_incoming_goods\<close> return on a batch file, on a table of
  64-bit quantities, and let \<open>i\<close> be any identifier. The rows of the file that name \<open>i\<close>
  are those with a non-empty \<^verbatim>\<open>CODECONTENT\<close> whose first field reads as \<open>i\<close>. When the
  table has a row \<open>r\<close> for \<open>i\<close>, the committed table has for \<open>i\<close> the row \<open>r\<close> with the
  quantities of these rows added to its quantity: its name, price and description are
  those of \<open>r\<close>. When the table has no row for \<open>i\<close> and no row of the file names \<open>i\<close>, the
  committed table has none either. When the table has no row for \<open>i\<close> and the file
  names it, the committed table has for \<open>i\<close> the row made of \<open>i\<close> and of the name (second
  field), quantity, price (float of the third field) and description (fourth field) of
  the first such row, with the quantities of the later rows for \<open>i\<close> added.
\<close>

theorem incoming_row_effect:
  assumes "process_incoming_goods env w f = (None, w')"
    and "csv_rows env (files w) f = Some rows"
    and "stored_int64 (database w)"
  shows "(\<forall>r. get_product (database w) i = Some r \<longrightarrow>
            get_product (database w') i =
              Some (r\<lparr>quantity := quantity r +
                          sum_list (map fst (entries_of i (incoming_entries env rows)))\<rparr>)) \<and>
         (get_product (database w) i = None \<longrightarrow>
            (case entries_of i (incoming_entries env rows) of
               [] \<Rightarrow> get_product (database w') i = None
             | (q, info) # rest \<Rightarrow>
                 (\<exists>n s2 p d.
                    item info 1 = Inr n \<and> item info 2 = Inr s2 \<and> float_of env s2 = Inr p \<and>
                    item info 3 = Inr d \<and>
                    get_product (database w') i =
                      Some \<lparr>product_id = i, product_name = n,
                            quantity = q + sum_list (map fst rest), price = p,
                            description = Some d\<rparr>)))"
proof -
  note loop = process_incoming_goods_returns [OF assms(1,2)]
  show ?thesis
    unfolding get_product_def
    using incoming_rows_existing [OF loop, of i] incoming_rows_new [OF loop, of i]
    by blast
qed

theorem incoming_row_effect_witness:
  "process_incoming_goods demo_env incoming_world ''in.csv'' =
     (None, snd (process_incoming_goods demo_env incoming_world ''in.csv'')) \<and>
   get_product (database incoming_world) 7 = None \<and>
   get_product (database (snd (process_incoming_goods demo_env incoming_world ''in.csv''))) 7 =
     Some \<lparr>product_id = 7, product_name = ''Bolt'', quantity = 100, price = 1 / 2,
           description = Some ''steel bolt''\<rparr> \<and>
   process_incoming_goods demo_env restock_world ''in.csv'' =
     (None, snd (process_incoming_goods demo_env restock_world ''in.csv'')) \<and>
   get_product (database restock_world) 7 = Some bolt \<and>
   get_product (database (snd (process_incoming_goods demo_env restock_world ''in.csv''))) 7 =
     Some (bolt\<lparr>quantity := 200\<rparr>)"
proof -
  let ?info = "[''7'', ''Bolt'', ''0.50'', ''steel bolt'']"
  have run_new: "process_incoming_goods demo_env incoming_world ''in.csv'' =
     (None, snd (process_incoming_goods demo_env incoming_world ''in.csv''))"
    and run_old: "process_incoming_goods demo_env restock_world ''in.csv'' =
     (None, snd (process_incoming_goods demo_env restock_world ''in.csv''))"
    by (simp_all add: batch_defs demo_defs)
  have src: "csv_rows demo_env (files incoming_world) ''in.csv'' = Some incoming_batch"
    "csv_rows demo_env (files restock_world) ''in.csv'' = Some incoming_batch"
    by (simp_all add: demo_env_def incoming_world_def restock_world_def)
  have dom: "stored_int64 (database incoming_world)" "stored_int64 (database restock_world)"
    by (simp_all add: stored_int64_def incoming_world_def restock_world_def bolt_def int64_def)
  have g_new: "get_product (database incoming_world) 7 = None"
    and g_old: "get_product (database restock_world) 7 = Some bolt"
    by (simp_all add: get_product_def select_by_id_def incoming_world_def restock_world_def
        bolt_def)
  have es: "entries_of 7 (incoming_entries demo_env incoming_batch) = [(100, ?info)]"
    by (simp add: entries_of_def incoming_entries_def incoming_entry_def incoming_batch_def
        and_then_def item_def int_of_def demo_env_def)
  have fields: "item ?info 1 = Inr ''Bolt''" "item ?info 2 = Inr ''0.50''"
    "float_of demo_env ''0.50'' = Inr (1 / 2)" "item ?info 3 = Inr ''steel bolt''"
    by (simp_all add: item_def float_of_def demo_env_def)
  from incoming_row_effect [OF run_new src(1) dom(1), of 7] g_new
  have "\<exists>n s2 p d. item ?info 1 = Inr n \<and> item ?info 2 = Inr s2 \<and>
      float_of demo_env s2 = Inr p \<and> item ?info 3 = Inr d \<and>
      get_product (database (snd (process_incoming_goods demo_env incoming_world ''in.csv''))) 7 =
        Some \<lparr>product_id = 7, product_name = n, quantity = 100 + sum_list (map fst []),
              price = p, description = Some d\<rparr>"
    by (simp add: es)
  with fields
  have a: "get_product (database (snd (process_incoming_goods demo_env incoming_world ''in.csv''))) 7
      = Some \<lparr>product_id = 7, product_name = ''Bolt'', quantity = 100, price = 1 / 2,
           description = Some ''steel bolt''\<rparr>"
    by auto
  from incoming_row_effect [OF run_old src(2) dom(2), of 7] g_old
  have b: "get_product (database (snd (process_incoming_goods demo_env restock_world ''in.csv''))) 7
      = Some (bolt\<lparr>quantity := 200\<rparr>)"
    by (simp add: es bolt_def)
  from run_new run_old g_new g_old a b show ?thesis by simp
qed

section \<open>The order of move and commit\<close>

text \<open>
  Claim C4 says that both batch operations move the source file only after the commit.
  In the source \<^verbatim>\<open>shutil.move\<close> is the statement before \<^verbatim>\<open>conn.commit()\<close> in both: on the
  two scenarios the sequence of effects has the move first and the commit second.
\<close>

theorem move_precedes_commit_counterexample:
  "\<not> moved_after_commit
       (effects (snd (process_outgoing_goods demo_env outgoing_world ''out.csv''))) \<and>
   \<not> moved_after_commit
       (effects (snd (process_incoming_goods demo_env incoming_world ''in.csv'')))"
  by (simp add: batch_defs demo_defs)

text \<open>
  Claim C4 as amended. When a batch operation returns, it has read the rows of the
  file, run the loop over them on the connection, then moved the file to the
  processed-files location, then committed the table the loop produced (and then, for
  outgoing goods, written the invoice): its effects are the move followed by the commit.
  When the move raises, nothing is committed and the world is as it was. The same holds
  whenever the operation raises, in particular on a row of the file: the file is not
  moved before the loop has run over all rows.
\<close>

theorem batch_moves_before_commit:
  "(process_outgoing_goods env w f = (None, w') \<longrightarrow>
      (\<exists>rows t lines.
         csv_rows env (files w) f = Some rows \<and>
         outgoing_rows env (database w, []) rows = Inr (t, lines) \<and>
         database w' = t \<and>
         effects w' = effects w @
           [File_moved f ''./OutgoingGoods/Processed'', Committed, Invoice_written f lines])) \<and>
   (process_incoming_goods env w f = (None, w'') \<longrightarrow>
      (\<exists>rows t.
         csv_rows env (files w) f = Some rows \<and>
         incoming_rows env (database w) rows = Inr t \<and>
         database w'' = t \<and>
         effects w'' = effects w @ [File_moved f ''./IncomingGoods/Processed'', Committed])) \<and>
   (shutil_move env (files w) f ''./OutgoingGoods/Processed'' = None \<longrightarrow>
      snd (process_outgoing_goods env w f) = w) \<and>
   (shutil_move env (files w) f ''./IncomingGoods/Processed'' = None \<longrightarrow>
      snd (process_incoming_goods env w f) = w) \<and>
   (\<forall>e. fst (process_outgoing_goods env w f) = Some e \<longrightarrow>
      snd (process_outgoing_goods env w f) = w) \<and>
   (\<forall>e. fst (process_incoming_goods env w f) = Some e \<longrightarrow>
      snd (process_incoming_goods env w f) = w)"
  by (auto simp: process_outgoing_goods_def process_incoming_goods_def move_file_def commit_def
      write_invoice_def split: option.splits sum.splits prod.splits)

theorem batch_moves_before_commit_witness:
  "process_outgoing_goods demo_env outgoing_world ''out.csv'' =
     (None, snd (process_outgoing_goods demo_env outgoing_world ''out.csv'')) \<and>
   effects (snd (process_outgoing_goods demo_env outgoing_world ''out.csv'')) =
     [File_moved ''out.csv'' ''./OutgoingGoods/Processed'', Committed,
      Invoice_written ''out.csv''
        [\<lparr>Product_ID = 7, Product_Name = ''Bolt'', Quantity = 120, Unit_Price = 1 / 2,
          Total_Price = 60\<rparr>]] \<and>
   database (snd (process_outgoing_goods demo_env outgoing_world ''out.csv'')) =
     [bolt\<lparr>quantity := 0\<rparr>] \<and>
   process_incoming_goods demo_env incoming_world ''in.csv'' =
     (None, snd (process_incoming_goods demo_env incoming_world ''in.csv'')) \<and>
   effects (snd (process_incoming_goods demo_env incoming_world ''in.csv'')) =
     [File_moved ''in.csv'' ''./IncomingGoods/Processed'', Committed] \<and>
   database (snd (process_incoming_goods demo_env incoming_world ''in.csv'')) = [bolt] \<and>
   shutil_move demo_env (files blocked_world) ''out.csv'' ''./OutgoingGoods/Processed'' = None \<and>
   snd (process_outgoing_goods demo_env blocked_world ''out.csv'') = blocked_world"
proof -
  have out: "process_outgoing_goods demo_env outgoing_world ''out.csv'' =
     (None, snd (process_outgoing_goods demo_env outgoing_world ''out.csv''))"
    by (simp add: batch_defs demo_defs)
  have inc: "process_incoming_goods demo_env incoming_world ''in.csv'' =
     (None, snd (process_incoming_goods demo_env incoming_world ''in.csv''))"
    by (simp add: batch_defs demo_defs)
  have blocked: "shutil_move demo_env (files blocked_world) ''out.csv''
      ''./OutgoingGoods/Processed'' = None"
    by (simp add: demo_defs)
  have rows_out: "outgoing_rows demo_env (database outgoing_world, []) outgoing_batch =
      Inr ([bolt\<lparr>quantity := 0\<rparr>],
           [\<lparr>Product_ID = 7, Product_Name = ''Bolt'', Quantity = 120, Unit_Price = 1 / 2,
             Total_Price = 60\<rparr>])"
    by (simp add: batch_defs demo_defs)
  have rows_in: "incoming_rows demo_env (database incoming_world) incoming_batch = Inr [bolt]"
    by (simp add: batch_defs demo_defs)
  have files: "csv_rows demo_env (files outgoing_world) ''out.csv'' = Some outgoing_batch"
    "csv_rows demo_env (files incoming_world) ''in.csv'' = Some incoming_batch"
    "effects outgoing_world = []" "effects incoming_world = []"
    by (simp_all add: demo_env_def outgoing_world_def incoming_world_def)
  from batch_moves_before_commit [of demo_env outgoing_world "''out.csv''"
      "snd (process_outgoing_goods demo_env outgoing_world ''out.csv'')"
      "snd (process_outgoing_goods demo_env outgoing_world ''out.csv'')"] out rows_out files
  have a: "effects (snd (process_outgoing_goods demo_env outgoing_world ''out.csv'')) =
     [File_moved ''out.csv'' ''./OutgoingGoods/Processed'', Committed,
      Invoice_written ''out.csv''
        [\<lparr>Product_ID = 7, Product_Name = ''Bolt'', Quantity = 120, Unit_Price = 1 / 2,
          Total_Price = 60\<rparr>]]"
    "database (snd (process_outgoing_goods demo_env outgoing_world ''out.csv'')) =
     [bolt\<lparr>quantity := 0\<rparr>]"
    by auto
  from batch_moves_before_commit [of demo_env incoming_world "''in.csv''"
      "snd (process_incoming_goods demo_env incoming_world ''in.csv'')"
      "snd (process_incoming_goods demo_env incoming_world ''in.csv'')"] inc rows_in files
  have b: "effects (snd (process_incoming_goods demo_env incoming_world ''in.csv'')) =
     [File_moved ''in.csv'' ''./IncomingGoods/Processed'', Committed]"
    "database (snd (process_incoming_goods demo_env incoming_world ''in.csv'')) = [bolt]"
    by auto
  from batch_moves_before_commit [of demo_env blocked_world "''out.csv''"] blocked
  have c: "snd (process_outgoing_goods demo_env blocked_world ''out.csv'') = blocked_world"
    by simp
  from out inc blocked a b c show ?thesis by simp
qed

end
